theory Spec2Isabelle
  imports Main
begin

section \<open>JavaScript values used by server.js\<close>


text \<open>The regular expression class \<open>\d\<close>: the ASCII digits.\<close>

definition is_digit :: "char \<Rightarrow> bool" where
  "is_digit c = (48 \<le> (of_char c :: nat) \<and> (of_char c :: nat) \<le> 57)"

definition digit_val :: "char \<Rightarrow> nat" where
  "digit_val c = (of_char c :: nat) - 48"

text \<open>\<open>parseInt\<close> of a non-empty string of decimal digits.\<close>

definition dec_val :: "string \<Rightarrow> nat" where
  "dec_val ds = foldl (\<lambda>n c. 10 * n + digit_val c) 0 ds"

text \<open>A parsed JSON value (\<open>response.data\<close> of the HTTP client).\<close>

datatype json =
    JNull
  | JBool bool
  | JNum int
  | JStr string
  | JArr "json list"
  | JObj "(string \<times> json) list"

text \<open>
  A thrown value: \<open>new Error(message)\<close> has no \<open>response\<close>; the HTTP client's error
  for a non-success status carries the response.
\<close>

record http_response =
  status :: nat
  statusText :: string
  body :: json

datatype exn = Exn (exn_message: string) (exn_response: "http_response option")

abbreviation Error :: "string \<Rightarrow> exn" where
  "Error msg \<equiv> Exn msg None"

text \<open>The digits of a number in a template literal: \<open>`${n}`\<close>.\<close>

definition digit_char :: "nat \<Rightarrow> char" where
  "digit_char d = ''0123456789'' ! d"

fun show_nat :: "nat \<Rightarrow> string" where
  "show_nat n = (if n < 10 then [digit_char n] else show_nat (n div 10) @ [digit_char (n mod 10)])"

declare show_nat.simps [simp del]

definition show_int :: "int \<Rightarrow> string" where
  "show_int i = (if i < 0 then CHR ''-'' # show_nat (nat (- i)) else show_nat (nat i))"





text \<open>
  A string that may be \<open>undefined\<close>: its truthiness, and \<open>a || b\<close>.
\<close>

definition truthy_str :: "string option \<Rightarrow> bool" where
  "truthy_str a = (case a of None \<Rightarrow> False | Some s \<Rightarrow> s \<noteq> [])"

definition js_or :: "string option \<Rightarrow> string option \<Rightarrow> string option" where
  "js_or a b = (if truthy_str a then a else b)"

definition js_or_lit :: "string option \<Rightarrow> string \<Rightarrow> string" where
  "js_or_lit a b = (if truthy_str a then the a else b)"

text \<open>
  Truthiness of a JSON value, the property \<open>data?.key\<close> of a key that is no built-in
  of strings or arrays (an object lists each key once), the truthiness of
  \<open>data?.length\<close>, and the string a template literal makes of a value.
\<close>

fun truthy :: "json \<Rightarrow> bool" where
  "truthy JNull = False"
| "truthy (JBool b) = b"
| "truthy (JNum n) = (n \<noteq> 0)"
| "truthy (JStr s) = (s \<noteq> [])"
| "truthy (JArr xs) = True"
| "truthy (JObj kvs) = True"

fun get_prop :: "string \<Rightarrow> json \<Rightarrow> json option" where
  "get_prop key (JObj kvs) = map_of kvs key"
| "get_prop key j = None"

fun length_truthy :: "json \<Rightarrow> bool" where
  "length_truthy (JStr s) = (s \<noteq> [])"
| "length_truthy (JArr xs) = (xs \<noteq> [])"
| "length_truthy (JObj kvs) = (case map_of kvs ''length'' of None \<Rightarrow> False | Some v \<Rightarrow> truthy v)"
| "length_truthy j = False"

fun join :: "string \<Rightarrow> string list \<Rightarrow> string" where
  "join sep [] = []"
| "join sep [x] = x"
| "join sep (x # y # ys) = x @ sep @ join sep (y # ys)"

fun js_string :: "json \<Rightarrow> string" where
  "js_string JNull = ''null''"
| "js_string (JBool b) = (if b then ''true'' else ''false'')"
| "js_string (JNum n) = show_int n"
| "js_string (JStr s) = s"
| "js_string (JArr xs) = join '','' (map (\<lambda>x. if x = JNull then [] else js_string x) xs)"
| "js_string (JObj kvs) = ''[object Object]''"

section \<open>Rate-limit configuration: \<open>parse_rate_limit\<close>\<close>

record rate_limit_config =
  limit :: nat
  window :: int
  display :: string

text \<open>
  \<open>rate_limit_str.match(/^(\d+)\/(\d+)([mhs])$/)\<close>: the three groups, or \<open>None\<close>
  when the string does not match. The classes of the digits, of the slash and of the
  unit are disjoint, so the greedy match is the only one.
\<close>

definition match_rate_limit :: "string \<Rightarrow> (string \<times> string \<times> char) option" where
  "match_rate_limit s =
     (let lim = takeWhile is_digit s; r1 = dropWhile is_digit s in
      case r1 of
        [] \<Rightarrow> None
      | c # r2 \<Rightarrow>
          if lim = [] \<or> c \<noteq> CHR ''/'' then None
          else
            (let time = takeWhile is_digit r2; r3 = dropWhile is_digit r2 in
             case r3 of
               [u] \<Rightarrow>
                 if time \<noteq> [] \<and> (u = CHR ''m'' \<or> u = CHR ''h'' \<or> u = CHR ''s'')
                 then Some (lim, time, u) else None
             | _ \<Rightarrow> None))"

definition multiplier :: "char \<Rightarrow> nat" where
  "multiplier unit = (if unit = CHR ''h'' then 3600 else if unit = CHR ''m'' then 60 else 1)"

definition parse_rate_limit :: "string option \<Rightarrow> exn + rate_limit_config option" where
  "parse_rate_limit rate_limit_str =
     (case rate_limit_str of
        None \<Rightarrow> Inr None
      | Some s \<Rightarrow>
          if s = [] then Inr None
          else
            (case match_rate_limit s of
               None \<Rightarrow> Inl (Error ''Invalid RATE_LIMIT format. Use: 100/1h or 50/30m'')
             | Some (lim, time, unit) \<Rightarrow>
                 Inr (Some \<lparr> limit = dec_val lim,
                             window = int (dec_val time * multiplier unit * 1000),
                             display = s \<rparr>)))"

section \<open>Process state and the rate limiter: \<open>check_rate_limit\<close>\<close>

record debug_stats =
  tool_calls :: "string \<rightharpoonup> nat"
  session_calls :: nat
  call_timestamps :: "int list"

definition initial_stats :: debug_stats where
  "initial_stats = \<lparr> tool_calls = Map.empty, session_calls = 0, call_timestamps = [] \<rparr>"

text \<open>
  \<open>check_rate_limit()\<close> reads the clock (\<open>now\<close>), replaces the recorded instants by the
  pruned ones, and then either throws or records \<open>now\<close>. The result is the thrown error
  or the returned \<open>true\<close>, with the state the call leaves behind.
\<close>

definition check_rate_limit ::
  "rate_limit_config option \<Rightarrow> int \<Rightarrow> debug_stats \<Rightarrow> (exn + bool) \<times> debug_stats" where
  "check_rate_limit rate_limit_config now st =
     (case rate_limit_config of
        None \<Rightarrow> (Inr True, st)
      | Some c \<Rightarrow>
          (let window_start = now - window c;
               st1 = st \<lparr> call_timestamps :=
                       filter (\<lambda>timestamp. timestamp > window_start) (call_timestamps st) \<rparr>
           in if length (call_timestamps st1) \<ge> limit c
              then (Inl (Error (''Rate limit exceeded: '' @ display c)), st1)
              else (Inr True, st1 \<lparr> call_timestamps := call_timestamps st1 @ [now] \<rparr>)))"

text \<open>
  The calls of one process, one after the other from a state: the state they leave, and
  how many of them the limiter let through.
\<close>

fun run_checks :: "rate_limit_config option \<Rightarrow> int list \<Rightarrow> debug_stats \<Rightarrow> debug_stats" where
  "run_checks cfg [] st = st"
| "run_checks cfg (now # nows) st = run_checks cfg nows (snd (check_rate_limit cfg now st))"

fun accepted :: "rate_limit_config option \<Rightarrow> int list \<Rightarrow> debug_stats \<Rightarrow> nat" where
  "accepted cfg [] st = 0"
| "accepted cfg (now # nows) st =
     (case check_rate_limit cfg now st of
        (Inl e, st') \<Rightarrow> accepted cfg nows st'
      | (Inr ok, st') \<Rightarrow> Suc (accepted cfg nows st'))"

section \<open>Process configuration and startup\<close>

record process_env =
  RATE_LIMIT :: "string option"
  WEB_UNLOCKER_ZONE :: "string option"
  BROWSER_ZONE :: "string option"

text \<open>
  The module's top level: \<open>unlocker_zone\<close> and \<open>rate_limit_config\<close> are computed before
  the server object is made and started, so an error thrown by \<open>parse_rate_limit\<close>
  ends the process with no server.
\<close>

record server =
  unlocker_zone :: string
  rate_limit_config :: "rate_limit_config option"
  stats :: debug_stats

definition startup :: "process_env \<Rightarrow> exn + server" where
  "startup env =
     (let uz = js_or_lit (WEB_UNLOCKER_ZONE env) ''mcp_unlocker'' in
      case parse_rate_limit (RATE_LIMIT env) of
        Inl e \<Rightarrow> Inl e
      | Inr cfg \<Rightarrow> Inr \<lparr> unlocker_zone = uz, rate_limit_config = cfg, stats = initial_stats \<rparr>)"

section \<open>Session authentication: \<open>extractUrlParams\<close>, \<open>authenticate\<close>\<close>





record url_params =
  token :: "string option"
  unlocker :: "string option"
  browser :: "string option"


record session =
  apiToken :: "string option"
  unlockerZone :: "string option"
  browserZone :: "string option"




section \<open>The tool invocation wrapper: \<open>tool_fn\<close>\<close>

text \<open>
  One progress notification, and the context a handler is called with. The callback
  \<open>reportProgress\<close>, when the caller has one, says for each notification whether its
  promise resolves.
\<close>

record progress =
  progress :: nat
  total :: nat
  message :: string

record tool_context =
  session :: "session option"
  reportProgress :: "(progress \<Rightarrow> bool) option"

text \<open>\<open>extendedCtx = {...ctx, apiToken, unlockerZone, browserZone}\<close>.\<close>

record extended_context = tool_context +
  ctx_apiToken :: string
  ctx_unlockerZone :: string
  ctx_browserZone :: string

text \<open>
  The \<open>catch\<close> block: what is thrown in place of the caught \<open>e\<close>.
\<close>

definition rethrow :: "exn \<Rightarrow> exn" where
  "rethrow e =
     (case exn_response e of
        Some r \<Rightarrow>
          (let msg = body r in
           if length_truthy msg
           then Error (''HTTP '' @ show_nat (status r) @ '': '' @ js_string msg)
           else e)
      | None \<Rightarrow> e)"

text \<open>\<open>ctx.session?.field\<close>.\<close>

definition session_field :: "tool_context \<Rightarrow> (session \<Rightarrow> string option) \<Rightarrow> string option" where
  "session_field ctx field = (case session ctx of None \<Rightarrow> None | Some s \<Rightarrow> field s)"

text \<open>
  \<open>extendedCtx\<close>, for the session's token \<open>tok\<close>: the zones come from the session,
  else from the environment, else from the literal names.
\<close>

definition extend_context ::
  "server \<Rightarrow> process_env \<Rightarrow> tool_context \<Rightarrow> string \<Rightarrow> extended_context" where
  "extend_context srv env ctx tok =
     \<lparr> session = session ctx, reportProgress = reportProgress ctx,
       ctx_apiToken = tok,
       ctx_unlockerZone = js_or_lit (session_field ctx unlockerZone) (unlocker_zone srv),
       ctx_browserZone =
         js_or_lit (js_or (session_field ctx browserZone) (BROWSER_ZONE env)) ''mcp_browser'' \<rparr>"

text \<open>
  The wrapped handler. The tool's own logic \<open>fn\<close> acts on the world outside the
  process (\<open>'w\<close>: the upstream and the caller's notifications); \<open>now\<close> is the clock
  at the rate-limit check, \<open>st\<close> the process's \<open>debug_stats\<close>.
\<close>

definition tool_fn ::
  "server \<Rightarrow> process_env \<Rightarrow> string \<Rightarrow> ('d \<Rightarrow> extended_context \<Rightarrow> 'w \<Rightarrow> (exn + 'r) \<times> 'w)
   \<Rightarrow> 'd \<Rightarrow> tool_context \<Rightarrow> int \<Rightarrow> debug_stats \<Rightarrow> 'w \<Rightarrow> (exn + 'r) \<times> debug_stats \<times> 'w" where
  "tool_fn srv env name fn d ctx now st w =
     (case check_rate_limit (rate_limit_config srv) now st of
        (Inl e, st1) \<Rightarrow> (Inl e, st1, w)
      | (Inr ok, st1) \<Rightarrow>
          (let st2 = st1 \<lparr> tool_calls := (tool_calls st1)
                          (name \<mapsto> (case tool_calls st1 name of None \<Rightarrow> 0 | Some n \<Rightarrow> n) + 1),
                        session_calls := session_calls st1 + 1 \<rparr>;
               tok = session_field ctx apiToken
           in if \<not> truthy_str tok
              then (Inl (Error ''No API token available in session''), st2, w)
              else
                (case fn d (extend_context srv env ctx (the tok)) w of
                   (Inr r, w') \<Rightarrow> (Inr r, st2, w')
                 | (Inl e, w') \<Rightarrow> (Inl (rethrow e), st2, w'))))"

text \<open>The counters after the three statements that count an invocation of \<open>name\<close>.\<close>

definition counted :: "string \<Rightarrow> debug_stats \<Rightarrow> debug_stats" where
  "counted name st =
     st \<lparr> tool_calls := (tool_calls st)
            (name \<mapsto> (case tool_calls st name of None \<Rightarrow> 0 | Some n \<Rightarrow> n) + 1),
          session_calls := session_calls st + 1 \<rparr>"


section \<open>Dataset tools: trigger, then poll the snapshot\<close>

text \<open>
  An awaited HTTP call resolves with the response's \<open>data\<close> or rejects with an
  error. The upstream is given by what it answers: to the trigger for the tool's input,
  and to the \<open>n\<close>-th status query (counted from 0) for a snapshot id.
\<close>

datatype reply = Resolves json | Rejects exn

record 'd upstream =
  trigger :: "'d \<Rightarrow> reply"
  snapshot :: "json \<Rightarrow> nat \<Rightarrow> reply"

text \<open>
  What a dataset tool does outside the process: the trigger requests and status
  queries it has sent, and the progress notifications it has made, in order.
\<close>

record world =
  triggers :: nat
  queries :: nat
  reports :: "progress list"

definition initial_world :: world where
  "initial_world = \<lparr> triggers = 0, queries = 0, reports = [] \<rparr>"

definition max_attempts :: nat where
  "max_attempts = 600"

text \<open>The argument of \<open>ctx.reportProgress\<close> in the pass that starts with \<open>attempts\<close>.\<close>

definition polling_progress :: "nat \<Rightarrow> progress" where
  "polling_progress attempts =
     \<lparr> progress = attempts, total = max_attempts,
       message = ''Polling for data (attempt '' @ show_nat (attempts + 1)
                   @ ''/'' @ show_nat max_attempts @ '')'' \<rparr>"

text \<open>
  The notifications of \<open>n\<close> passes from \<open>attempts = a\<close> on, for a caller that takes
  them.
\<close>

definition progress_notes :: "extended_context \<Rightarrow> nat \<Rightarrow> nat \<Rightarrow> progress list" where
  "progress_notes ctx a n =
     (case reportProgress ctx of
        None \<Rightarrow> []
      | Some report \<Rightarrow> map polling_progress [a..<a + n])"

text \<open>
  A reply to a status query after which the loop goes on: a body whose \<open>status\<close> is
  \<open>"running"\<close>, or a rejection.
\<close>

definition running_or_error :: "reply \<Rightarrow> bool" where
  "running_or_error r =
     (case r of
        Rejects e \<Rightarrow> True
      | Resolves snapshot_data \<Rightarrow> get_prop ''status'' snapshot_data = Some (JStr ''running''))"

text \<open>
  One pass through the body of \<open>while (attempts < max_attempts)\<close>: the returned string
  if the body returns, the counter \<open>attempts\<close> after the pass, and the world. The
  \<open>try\<close> covers the notification and the query, so a rejection of either is caught:
  \<open>attempts++\<close>, and the loop goes on. \<open>stringify\<close> is \<open>JSON.stringify\<close>.
\<close>

definition poll_body ::
  "(json \<Rightarrow> string) \<Rightarrow> 'd upstream \<Rightarrow> extended_context \<Rightarrow> json \<Rightarrow> nat \<Rightarrow> world
   \<Rightarrow> string option \<times> nat \<times> world" where
  "poll_body stringify up ctx snapshot_id attempts w =
     (let note = polling_progress attempts;
          reported = (case reportProgress ctx of
                        None \<Rightarrow> (True, w)
                      | Some report \<Rightarrow> (report note, w \<lparr> reports := reports w @ [note] \<rparr>))
      in case reported of
           (False, w1) \<Rightarrow> (None, attempts + 1, w1)
         | (True, w1) \<Rightarrow>
             (let w2 = w1 \<lparr> queries := queries w1 + 1 \<rparr> in
              case snapshot up snapshot_id (queries w1) of
                Rejects e \<Rightarrow> (None, attempts + 1, w2)
              | Resolves snapshot_data \<Rightarrow>
                  if get_prop ''status'' snapshot_data = Some (JStr ''running'')
                  then (None, attempts + 1, w2)
                  else (Some (stringify snapshot_data), attempts, w2)))"

lemma poll_body_continues:
  "poll_body stringify up ctx snapshot_id attempts w = (None, attempts', w') \<Longrightarrow>
   attempts' = attempts + 1"
  by (auto simp: poll_body_def Let_def split: option.splits prod.splits bool.splits
      reply.splits if_splits)

text \<open>
  The loop, with the \<open>throw\<close> after it: the result, the final value of \<open>attempts\<close>,
  and the world.
\<close>

function poll_loop ::
  "(json \<Rightarrow> string) \<Rightarrow> 'd upstream \<Rightarrow> extended_context \<Rightarrow> json \<Rightarrow> nat \<Rightarrow> world
   \<Rightarrow> (exn + string) \<times> nat \<times> world" where
  "poll_loop stringify up ctx snapshot_id attempts w =
     (if attempts < max_attempts
      then (case poll_body stringify up ctx snapshot_id attempts w of
              (Some result_data, attempts', w') \<Rightarrow> (Inr result_data, attempts', w')
            | (None, attempts', w') \<Rightarrow> poll_loop stringify up ctx snapshot_id attempts' w')
      else (Inl (Error (''Timeout after '' @ show_nat max_attempts
                          @ '' seconds waiting for data'')), attempts, w))"
  by pat_completeness auto
termination
  by (relation "measure (\<lambda>(stringify, up, ctx, snapshot_id, attempts, w). max_attempts - attempts)")
     (auto dest: sym [THEN poll_body_continues])

declare poll_loop.simps [simp del]

text \<open>The handler of a \<open>web_data_*\<close> tool (the function \<open>tool_fn\<close> wraps).\<close>

definition web_data_execute ::
  "(json \<Rightarrow> string) \<Rightarrow> 'd upstream \<Rightarrow> 'd \<Rightarrow> extended_context \<Rightarrow> world \<Rightarrow> (exn + string) \<times> world" where
  "web_data_execute stringify up d ctx w =
     (let w1 = w \<lparr> triggers := triggers w + 1 \<rparr> in
      case trigger up d of
        Rejects e \<Rightarrow> (Inl e, w1)
      | Resolves trigger_data \<Rightarrow>
          (case get_prop ''snapshot_id'' trigger_data of
             None \<Rightarrow> (Inl (Error ''No snapshot ID returned from request''), w1)
           | Some snapshot_id \<Rightarrow>
               if \<not> truthy snapshot_id
               then (Inl (Error ''No snapshot ID returned from request''), w1)
               else (case poll_loop stringify up ctx snapshot_id 0 w1 of
                       (r, attempts, w2) \<Rightarrow> (r, w2))))"

section \<open>Search URLs: \<open>search_url\<close>\<close>












section \<open>Lemmas on decimal numerals\<close>










section \<open>Lemmas on the rate-limit specification string\<close>










section \<open>Lemmas on the rate limiter\<close>

lemma check_Some:
  "check_rate_limit (Some c) now st =
     (if limit c \<le> length (filter (\<lambda>t. now - window c < t) (call_timestamps st))
      then (Inl (Error (''Rate limit exceeded: '' @ display c)),
            st \<lparr> call_timestamps := filter (\<lambda>t. now - window c < t) (call_timestamps st) \<rparr>)
      else (Inr True,
            st \<lparr> call_timestamps := filter (\<lambda>t. now - window c < t) (call_timestamps st) @ [now] \<rparr>))"
  by (simp add: check_rate_limit_def Let_def)

lemma check_length:
  "length (call_timestamps st) \<le> limit c \<Longrightarrow>
   length (call_timestamps (snd (check_rate_limit (Some c) now st))) \<le> limit c"
  by (auto simp: check_Some intro: le_trans [OF length_filter_le])

lemma run_checks_length:
  "length (call_timestamps st) \<le> limit c \<Longrightarrow>
   length (call_timestamps (run_checks (Some c) nows st)) \<le> limit c"
  by (induction nows arbitrary: st) (auto intro: check_length)

lemma check_in_window:
  "0 < window c \<Longrightarrow> t \<in> set (call_timestamps (snd (check_rate_limit (Some c) now st))) \<Longrightarrow>
   now - window c < t"
  by (auto simp: check_Some split: if_splits)

text \<open>
  Instants that every call of a window keeps: those recorded before, and those of the
  calls let through, are all still there at the end.
\<close>

lemma window_count:
  assumes "\<forall>x\<in>set (t # nows). \<forall>y\<in>set (t # nows). y - window c < x"
  shows "length (filter (\<lambda>x. \<forall>y\<in>set (t # nows). y - window c < x) (call_timestamps st))
           + accepted (Some c) nows st
         \<le> length (filter (\<lambda>x. t - window c < x) (call_timestamps (run_checks (Some c) nows st)))"
  using assms
proof (induction nows arbitrary: st)
  case Nil
  then show ?case by simp
next
  case (Cons n nows)
  let ?P = "\<lambda>x. \<forall>y\<in>set (t # n # nows). y - window c < x"
  let ?Q = "\<lambda>x. \<forall>y\<in>set (t # nows). y - window c < x"
  let ?st' = "snd (check_rate_limit (Some c) n st)"
  have win: "\<forall>x\<in>set (t # nows). \<forall>y\<in>set (t # nows). y - window c < x"
    using Cons.prems by simp
  have IH: "length (filter ?Q (call_timestamps ?st')) + accepted (Some c) nows ?st'
      \<le> length (filter (\<lambda>x. t - window c < x) (call_timestamps (run_checks (Some c) nows ?st')))"
    using Cons.IH [OF win] .
  have Qn: "?Q n" using Cons.prems by simp
  have sub: "length (filter ?P (call_timestamps st))
      \<le> length (filter ?Q (filter (\<lambda>x. n - window c < x) (call_timestamps st)))"
  proof -
    have "filter ?P (call_timestamps st) = filter ?Q (filter (\<lambda>x. n - window c < x) (call_timestamps st))"
      by (auto intro: filter_cong)
    then show ?thesis by simp
  qed
  show ?case
  proof (cases "limit c \<le> length (filter (\<lambda>x. n - window c < x) (call_timestamps st))")
    case True
    then have "accepted (Some c) (n # nows) st = accepted (Some c) nows ?st'"
      and "call_timestamps ?st' = filter (\<lambda>x. n - window c < x) (call_timestamps st)"
      by (simp_all add: check_Some)
    then show ?thesis using IH sub by simp
  next
    case False
    then have "accepted (Some c) (n # nows) st = Suc (accepted (Some c) nows ?st')"
      and "call_timestamps ?st' = filter (\<lambda>x. n - window c < x) (call_timestamps st) @ [n]"
      by (simp_all add: check_Some)
    then show ?thesis using IH sub Qn by simp
  qed
qed

lemma window_full:
  assumes "\<forall>x\<in>set (t # nows). \<forall>y\<in>set (t # nows). y - window c < x"
    and "limit c \<le> accepted (Some c) nows st"
  shows "fst (check_rate_limit (Some c) t (run_checks (Some c) nows st)) =
     Inl (Error (''Rate limit exceeded: '' @ display c))"
  using window_count [OF assms(1), of st] assms(2) by (simp add: check_Some)

lemma window_elapsed:
  assumes "length (call_timestamps st) \<le> limit c" "e \<in> set (call_timestamps st)" "e + window c \<le> t"
  shows "fst (check_rate_limit (Some c) t st) = Inr True"
proof -
  have "length (filter (\<lambda>x. t - window c < x) (call_timestamps st)) < length (call_timestamps st)"
    using assms(2,3) by (intro length_filter_less [of e]) auto
  then show ?thesis using assms(1) by (simp add: check_Some)
qed

lemma initial_length: "length (call_timestamps initial_stats) \<le> limit c"
  by (simp add: initial_stats_def)

text \<open>
  C3. With a configuration, a check prunes the recorded instants to those strictly newer
  than \<open>now - window\<close>; with \<open>limit\<close> or more left it throws the error that carries the
  display string and records nothing, otherwise it records \<open>now\<close> and succeeds. So once
  \<open>limit\<close> calls of a window of that length were let through, the next call of the
  window throws; a call made when the window has passed since the earliest recorded
  instant succeeds; and with no configuration every call succeeds.
\<close>

theorem check_rate_limit_spec:
  "(\<forall>c now st.
      check_rate_limit (Some c) now st =
        (let kept = filter (\<lambda>t. now - window c < t) (call_timestamps st) in
         if limit c \<le> length kept
         then (Inl (Error (''Rate limit exceeded: '' @ display c)), st \<lparr> call_timestamps := kept \<rparr>)
         else (Inr True, st \<lparr> call_timestamps := kept @ [now] \<rparr>)))
   \<and> (\<forall>c nows t st.
        (\<forall>x\<in>set (t # nows). \<forall>y\<in>set (t # nows). y - window c < x)
        \<and> limit c \<le> accepted (Some c) nows st
        \<longrightarrow> fst (check_rate_limit (Some c) t (run_checks (Some c) nows st)) =
              Inl (Error (''Rate limit exceeded: '' @ display c)))
   \<and> (\<forall>c nows t.
        call_timestamps (run_checks (Some c) nows initial_stats) \<noteq> []
        \<and> Min (set (call_timestamps (run_checks (Some c) nows initial_stats))) + window c \<le> t
        \<longrightarrow> fst (check_rate_limit (Some c) t (run_checks (Some c) nows initial_stats)) = Inr True)
   \<and> (\<forall>now st. check_rate_limit None now st = (Inr True, st))"
proof (intro conjI allI impI)
  fix c now st
  show "check_rate_limit (Some c) now st =
        (let kept = filter (\<lambda>t. now - window c < t) (call_timestamps st) in
         if limit c \<le> length kept
         then (Inl (Error (''Rate limit exceeded: '' @ display c)), st \<lparr> call_timestamps := kept \<rparr>)
         else (Inr True, st \<lparr> call_timestamps := kept @ [now] \<rparr>))"
    by (simp add: check_Some Let_def)
next
  fix c nows t st
  assume "(\<forall>x\<in>set (t # nows). \<forall>y\<in>set (t # nows). y - window c < x)
        \<and> limit c \<le> accepted (Some c) nows st"
  then show "fst (check_rate_limit (Some c) t (run_checks (Some c) nows st)) =
              Inl (Error (''Rate limit exceeded: '' @ display c))"
    by (intro window_full) blast+
next
  fix c nows t
  let ?st = "run_checks (Some c) nows initial_stats"
  assume h: "call_timestamps ?st \<noteq> [] \<and> Min (set (call_timestamps ?st)) + window c \<le> t"
  then have "Min (set (call_timestamps ?st)) \<in> set (call_timestamps ?st)"
    by (intro Min_in) auto
  moreover have "length (call_timestamps ?st) \<le> limit c"
    by (rule run_checks_length [OF initial_length])
  ultimately show "fst (check_rate_limit (Some c) t ?st) = Inr True"
    using h by (intro window_elapsed [of _ _ "Min (set (call_timestamps ?st))"]) auto
next
  fix now st
  show "check_rate_limit None now st = (Inr True, st)"
    by (simp add: check_rate_limit_def)
qed

lemma run_two:
  "run_checks (Some \<lparr> limit = 2, window = 1000, display = ''2/1s'' \<rparr>) [0, 10] initial_stats
     = initial_stats \<lparr> call_timestamps := [0, 10] \<rparr>"
  by (simp add: check_Some initial_stats_def)

lemma accepted_two:
  "accepted (Some \<lparr> limit = 2, window = 1000, display = ''2/1s'' \<rparr>) [0, 10] initial_stats = 2"
  by (simp add: check_Some initial_stats_def)

theorem check_rate_limit_spec_witness:
  "fst (check_rate_limit (Some \<lparr> limit = 2, window = 1000, display = ''2/1s'' \<rparr>) 20
          (initial_stats \<lparr> call_timestamps := [0, 10] \<rparr>))
     = Inl (Error ''Rate limit exceeded: 2/1s'')
   \<and> fst (check_rate_limit (Some \<lparr> limit = 2, window = 1000, display = ''2/1s'' \<rparr>) 1000
          (initial_stats \<lparr> call_timestamps := [0, 10] \<rparr>))
     = Inr True"
proof -
  let ?c = "\<lparr> limit = 2, window = 1000, display = ''2/1s'' \<rparr>"
  have "fst (check_rate_limit (Some ?c) 20 (run_checks (Some ?c) [0, 10] initial_stats)) =
              Inl (Error (''Rate limit exceeded: '' @ display ?c))"
    by (rule check_rate_limit_spec [THEN conjunct2, THEN conjunct1, rule_format])
       (simp add: accepted_two del: accepted.simps)
  moreover have "fst (check_rate_limit (Some ?c) 1000 (run_checks (Some ?c) [0, 10] initial_stats))
      = Inr True"
    by (rule check_rate_limit_spec [THEN conjunct2, THEN conjunct2, THEN conjunct1, rule_format])
       (simp add: run_two del: run_checks.simps)
  ultimately show ?thesis by (simp add: run_two del: run_checks.simps)
qed

text \<open>
  C8 (amended). After every check made with a configuration, in a process that started
  with no recorded instant, no more instants are recorded than the limit allows; and
  when the window is positive each of them is strictly newer than \<open>now - window\<close>.
  (A window of zero milliseconds, which \<open>5/0s\<close> configures, leaves the instant just
  recorded at \<open>now - window\<close> itself.)
\<close>

theorem rate_limit_state_invariant:
  "\<forall>c nows now.
     length (call_timestamps
        (snd (check_rate_limit (Some c) now (run_checks (Some c) nows initial_stats)))) \<le> limit c
     \<and> (0 < window c \<longrightarrow>
          (\<forall>t\<in>set (call_timestamps
                (snd (check_rate_limit (Some c) now (run_checks (Some c) nows initial_stats)))).
             now - window c < t))"
  by (auto intro: check_length run_checks_length initial_length dest: check_in_window)

theorem rate_limit_state_invariant_witness:
  "call_timestamps (snd (check_rate_limit (Some \<lparr> limit = 2, window = 1000, display = ''2/1s'' \<rparr>) 1005
       (initial_stats \<lparr> call_timestamps := [0, 10] \<rparr>))) = [10, 1005]
   \<and> length [10, 1005 :: int] \<le> 2 \<and> 1005 - 1000 < (10 :: int) \<and> 1005 - 1000 < (1005 :: int)"
proof -
  let ?c = "\<lparr> limit = 2, window = 1000, display = ''2/1s'' \<rparr>"
  let ?ts = "call_timestamps (snd (check_rate_limit (Some ?c) 1005 (run_checks (Some ?c) [0, 10] initial_stats)))"
  have ts: "?ts = [10, 1005]"
    by (simp add: run_two check_Some del: run_checks.simps)
  have "length ?ts \<le> limit ?c \<and> (0 < window ?c \<longrightarrow> (\<forall>t\<in>set ?ts. 1005 - window ?c < t))"
    using rate_limit_state_invariant [rule_format, where c = ?c and nows = "[0, 10]" and now = 1005]
    by blast
  then have "length [10, 1005 :: int] \<le> 2 \<and> 1005 - 1000 < (10 :: int) \<and> 1005 - 1000 < (1005 :: int)"
    unfolding ts by simp
  moreover have "call_timestamps (snd (check_rate_limit (Some ?c) 1005
       (initial_stats \<lparr> call_timestamps := [0, 10] \<rparr>))) = [10, 1005]"
    using ts by (simp only: run_two)
  ultimately show ?thesis by blast
qed

theorem rate_limit_state_zero_window:
  "parse_rate_limit (Some ''5/0s'') = Inr (Some \<lparr> limit = 5, window = 0, display = ''5/0s'' \<rparr>)
   \<and> call_timestamps (snd (check_rate_limit (Some \<lparr> limit = 5, window = 0, display = ''5/0s'' \<rparr>)
        1000 initial_stats)) = [1000]
   \<and> \<not> (1000 - window \<lparr> limit = 5, window = 0, display = ''5/0s'' \<rparr> < 1000)"
  by (simp add: check_Some initial_stats_def parse_rate_limit_def match_rate_limit_def
      is_digit_def dec_val_def digit_val_def multiplier_def)

section \<open>Lemmas on the polling loop\<close>


lemma progress_notes_Suc: "progress_notes ctx a (Suc n) = progress_notes ctx a 1 @ progress_notes ctx (Suc a) n"
  by (simp add: progress_notes_def upt_rec split: option.splits)

lemma poll_body_goes_on:
  assumes "running_or_error (snapshot up sid (queries w))"
    and "\<forall>report p. reportProgress ctx = Some report \<longrightarrow> report p"
  shows "poll_body stringify up ctx sid a w =
     (None, a + 1, w \<lparr> queries := queries w + 1, reports := reports w @ progress_notes ctx a 1 \<rparr>)"
  using assms
  by (cases "reportProgress ctx"; cases "snapshot up sid (queries w)")
     (auto simp: poll_body_def running_or_error_def progress_notes_def Let_def)



lemma poll_body_bounds:
  assumes "poll_body stringify up ctx sid a w = (res, a', w')"
  shows "queries w \<le> queries w' \<and> queries w' \<le> queries w + 1
     \<and> a' = (if res = None then a + 1 else a)"
  using assms
  by (auto simp: poll_body_def Let_def split: option.splits prod.splits bool.splits
      reply.splits if_splits)

lemma poll_loop_bounds:
  assumes "poll_loop stringify up ctx sid a w = (r, a', w')" "a \<le> max_attempts"
  shows "a \<le> a' \<and> a' \<le> max_attempts \<and> queries w' + a \<le> queries w + max_attempts
     \<and> (isl r \<longrightarrow> a' = max_attempts)"
  using assms
proof (induction stringify up ctx sid a w rule: poll_loop.induct)
  case (1 stringify up ctx sid a w)
  show ?case
  proof (cases "a < max_attempts")
    case False
    with "1.prems" show ?thesis by (subst (asm) poll_loop.simps) auto
  next
    case True
    obtain res a1 w1 where body: "poll_body stringify up ctx sid a w = (res, a1, w1)"
      by (cases "poll_body stringify up ctx sid a w") auto
    note b = poll_body_bounds [OF body]
    show ?thesis
    proof (cases res)
      case (Some result_data)
      with "1.prems" True body b show ?thesis
        by (subst (asm) poll_loop.simps) auto
    next
      case None
      with "1.prems" True body have rec: "poll_loop stringify up ctx sid a1 w1 = (r, a', w')"
        by (subst (asm) poll_loop.simps) simp
      have a1: "a1 = a + 1" using b None by simp
      have "a1 \<le> a' \<and> a' \<le> max_attempts \<and> queries w' + a1 \<le> queries w1 + max_attempts
         \<and> (isl r \<longrightarrow> a' = max_attempts)"
        using "1.IH" [OF True body [symmetric] _ refl rec] None True a1 by simp
      then show ?thesis using a1 b by auto
    qed
  qed
qed

lemma show_nat_max_attempts: "show_nat max_attempts = ''600''"
  by (simp add: max_attempts_def show_nat.simps digit_char_def)

lemma poll_body_running:
  assumes "running_or_error (snapshot up sid (queries w))"
  shows "\<exists>w1. poll_body stringify up ctx sid a w = (None, a + 1, w1)
     \<and> queries w \<le> queries w1 \<and> queries w1 \<le> queries w + 1"
  using assms
  by (cases "reportProgress ctx"; cases "snapshot up sid (queries w)")
     (auto simp: poll_body_def running_or_error_def Let_def split: bool.splits)

lemma poll_loop_times_out:
  assumes "\<forall>i<n. running_or_error (snapshot up sid (queries w + i))"
    and "a + n = max_attempts"
  shows "\<exists>w'. poll_loop stringify up ctx sid a w =
     (Inl (Error ''Timeout after 600 seconds waiting for data''), max_attempts, w')"
  using assms
proof (induction n arbitrary: a w)
  case 0
  then show ?case
    by (subst poll_loop.simps) (simp add: show_nat_max_attempts)
next
  case (Suc n)
  have "running_or_error (snapshot up sid (queries w + 0))"
    using Suc.prems(1) by blast
  then obtain w1 where body: "poll_body stringify up ctx sid a w = (None, a + 1, w1)"
    and q: "queries w \<le> queries w1" "queries w1 \<le> queries w + 1"
    using poll_body_running [of up sid w stringify ctx a] by auto
  have "\<forall>i<n. running_or_error (snapshot up sid (queries w1 + i))"
  proof (intro allI impI)
    fix i assume i: "i < n"
    from q have "queries w1 = queries w \<or> queries w1 = queries w + 1" by arith
    then obtain j where "queries w1 + i = queries w + j" "j < Suc n"
      using i by (auto intro: that [of i] that [of "Suc i"])
    then show "running_or_error (snapshot up sid (queries w1 + i))"
      using Suc.prems(1) by auto
  qed
  moreover have "a + 1 + n = max_attempts" using Suc.prems(2) by simp
  ultimately obtain w' where "poll_loop stringify up ctx sid (a + 1) w1 =
     (Inl (Error ''Timeout after 600 seconds waiting for data''), max_attempts, w')"
    using Suc.IH by blast
  moreover have "a < max_attempts" using Suc.prems(2) by simp
  ultimately show ?case
    by (subst poll_loop.simps) (simp add: body)
qed

lemma poll_loop_times_out_queries:
  assumes "\<forall>report p. reportProgress ctx = Some report \<longrightarrow> report p"
    and "\<forall>i<n. running_or_error (snapshot up sid (queries w + i))"
    and "a + n = max_attempts"
  shows "poll_loop stringify up ctx sid a w =
     (Inl (Error ''Timeout after 600 seconds waiting for data''), max_attempts,
      w \<lparr> queries := queries w + n, reports := reports w @ progress_notes ctx a n \<rparr>)"
  using assms(2,3)
proof (induction n arbitrary: a w)
  case 0
  then show ?case
    by (subst poll_loop.simps) (simp add: show_nat_max_attempts progress_notes_def split: option.splits)
next
  case (Suc n)
  let ?w = "w \<lparr> queries := queries w + 1, reports := reports w @ progress_notes ctx a 1 \<rparr>"
  have "running_or_error (snapshot up sid (queries w + 0))"
    using Suc.prems(1) by blast
  then have body: "poll_body stringify up ctx sid a w = (None, a + 1, ?w)"
    by (intro poll_body_goes_on assms(1)) simp
  have "poll_loop stringify up ctx sid (a + 1) ?w =
     (Inl (Error ''Timeout after 600 seconds waiting for data''), max_attempts,
      ?w \<lparr> queries := queries ?w + n, reports := reports ?w @ progress_notes ctx (a + 1) n \<rparr>)"
  proof (rule Suc.IH)
    show "\<forall>i<n. running_or_error (snapshot up sid (queries ?w + i))"
    proof (intro allI impI)
      fix i assume "i < n"
      then have "Suc i < Suc n" by simp
      then have "running_or_error (snapshot up sid (queries w + Suc i))"
        using Suc.prems(1) by blast
      then show "running_or_error (snapshot up sid (queries ?w + i))" by simp
    qed
    show "a + 1 + n = max_attempts" using Suc.prems(2) by simp
  qed
  moreover have "a < max_attempts" using Suc.prems(2) by simp
  ultimately show ?case
    by (subst poll_loop.simps) (simp add: body progress_notes_Suc [of ctx a n])
qed



text \<open>
  C2. The loop never makes more than 600 passes: from \<open>attempts = 0\<close> the counter ends
  at 600 or less and at most 600 status queries are sent, whatever the upstream and the
  caller do; each pass leaves the counter where it was or one higher, never above the
  maximum. When every status query is answered by \<open>{status: "running"}\<close> or fails, the
  loop ends with the counter at 600 and the tool throws the timeout error that names
  the bound, after exactly 600 queries if no progress notification is rejected.
\<close>

theorem snapshot_polling_bounded:
  "max_attempts = 600
   \<and> (\<forall>stringify (up :: 'd upstream) ctx snapshot_id w r attempts' w'.
        poll_loop stringify up ctx snapshot_id 0 w = (r, attempts', w')
        \<longrightarrow> attempts' \<le> 600 \<and> queries w' \<le> queries w + 600)
   \<and> (\<forall>stringify (up :: 'd upstream) ctx snapshot_id attempts w res attempts' w'.
        attempts < max_attempts
        \<and> poll_body stringify up ctx snapshot_id attempts w = (res, attempts', w')
        \<longrightarrow> attempts \<le> attempts' \<and> attempts' \<le> max_attempts)
   \<and> (\<forall>stringify (up :: 'd upstream) d ctx w trigger_data snapshot_id.
        trigger up d = Resolves trigger_data
        \<and> get_prop ''snapshot_id'' trigger_data = Some snapshot_id \<and> truthy snapshot_id
        \<and> (\<forall>i<600. running_or_error (snapshot up snapshot_id (queries w + i)))
        \<longrightarrow> fst (poll_loop stringify up ctx snapshot_id 0 (w \<lparr> triggers := triggers w + 1 \<rparr>))
              = Inl (Error ''Timeout after 600 seconds waiting for data'')
            \<and> fst (snd (poll_loop stringify up ctx snapshot_id 0 (w \<lparr> triggers := triggers w + 1 \<rparr>)))
              = 600
            \<and> fst (web_data_execute stringify up d ctx w)
              = Inl (Error ''Timeout after 600 seconds waiting for data'')
            \<and> ((\<forall>report p. reportProgress ctx = Some report \<longrightarrow> report p)
                \<longrightarrow> queries (snd (web_data_execute stringify up d ctx w)) = queries w + 600))"
proof (intro conjI allI impI)
  show "max_attempts = 600" by (simp add: max_attempts_def)
next
  fix stringify and up :: "'d upstream" and ctx :: extended_context and snapshot_id
    and w :: world and r attempts' and w' :: world
  assume "poll_loop stringify up ctx snapshot_id 0 w = (r, attempts', w')"
  from poll_loop_bounds [OF this]
  show "attempts' \<le> 600" and "queries w' \<le> queries w + 600"
    by (simp_all add: max_attempts_def)
next
  fix stringify and up :: "'d upstream" and ctx :: extended_context and snapshot_id attempts
    and w :: world and res attempts' and w' :: world
  assume h: "attempts < max_attempts
        \<and> poll_body stringify up ctx snapshot_id attempts w = (res, attempts', w')"
  then have "attempts' = (if res = None then attempts + 1 else attempts)"
    using poll_body_bounds [of stringify up ctx snapshot_id attempts w res attempts' w'] by simp
  with h show "attempts \<le> attempts'" and "attempts' \<le> max_attempts"
    by (simp_all split: if_splits)
next
  fix stringify and up :: "'d upstream" and d and ctx :: extended_context and w :: world
    and trigger_data snapshot_id
  define w1 where "w1 = w \<lparr> triggers := triggers w + 1 \<rparr>"
  assume h: "trigger up d = Resolves trigger_data
        \<and> get_prop ''snapshot_id'' trigger_data = Some snapshot_id \<and> truthy snapshot_id
        \<and> (\<forall>i<600. running_or_error (snapshot up snapshot_id (queries w + i)))"
  then have trig: "trigger up d = Resolves trigger_data"
    and sid: "get_prop ''snapshot_id'' trigger_data = Some snapshot_id" "truthy snapshot_id"
    and run0: "\<forall>i<600. running_or_error (snapshot up snapshot_id (queries w + i))"
    by blast+
  have q: "queries w1 = queries w" by (simp add: w1_def)
  have run: "\<forall>i<600. running_or_error (snapshot up snapshot_id (queries w1 + i))"
    using run0 q by simp
  have m: "0 + 600 = max_attempts" by (simp add: max_attempts_def)
  obtain w' where loop: "poll_loop stringify up ctx snapshot_id 0 w1 =
     (Inl (Error ''Timeout after 600 seconds waiting for data''), max_attempts, w')"
    using poll_loop_times_out [OF run m, of stringify ctx] by blast
  have exec: "web_data_execute stringify up d ctx w =
     (case poll_loop stringify up ctx snapshot_id 0 w1 of (r, attempts, w2) \<Rightarrow> (r, w2))"
    using trig sid by (simp add: web_data_execute_def Let_def w1_def)
  have "fst (poll_loop stringify up ctx snapshot_id 0 w1)
      = Inl (Error ''Timeout after 600 seconds waiting for data'')"
    by (simp add: loop)
  then show "fst (poll_loop stringify up ctx snapshot_id 0 (w \<lparr> triggers := triggers w + 1 \<rparr>))
      = Inl (Error ''Timeout after 600 seconds waiting for data'')"
    by (simp only: w1_def)
  have "fst (snd (poll_loop stringify up ctx snapshot_id 0 w1)) = 600"
    by (simp add: loop max_attempts_def)
  then show "fst (snd (poll_loop stringify up ctx snapshot_id 0 (w \<lparr> triggers := triggers w + 1 \<rparr>))) = 600"
    by (simp only: w1_def)
  show "fst (web_data_execute stringify up d ctx w)
      = Inl (Error ''Timeout after 600 seconds waiting for data'')"
    by (simp add: exec loop)
  assume ok: "\<forall>report p. reportProgress ctx = Some report \<longrightarrow> report p"
  have "poll_loop stringify up ctx snapshot_id 0 w1 =
     (Inl (Error ''Timeout after 600 seconds waiting for data''), max_attempts,
      w1 \<lparr> queries := queries w1 + 600, reports := reports w1 @ progress_notes ctx 0 600 \<rparr>)"
    by (rule poll_loop_times_out_queries [OF ok run m])
  then show "queries (snd (web_data_execute stringify up d ctx w)) = queries w + 600"
    by (simp add: exec q)
qed


theorem snapshot_polling_bounded_witness:
  "fst (web_data_execute (\<lambda>j. ''[]'')
     \<lparr> trigger = (\<lambda>d :: unit. Resolves (JObj [(''snapshot_id'', JStr ''s_1'')])),
       snapshot = (\<lambda>snapshot_id n. Resolves (JObj [(''status'', JStr ''running'')])) \<rparr>
     ()
     \<lparr> session = None, reportProgress = None, ctx_apiToken = ''tok'',
       ctx_unlockerZone = ''mcp_unlocker'', ctx_browserZone = ''mcp_browser'' \<rparr>
     initial_world)
   = Inl (Error ''Timeout after 600 seconds waiting for data'')
   \<and> queries (snd (web_data_execute (\<lambda>j. ''[]'')
     \<lparr> trigger = (\<lambda>d :: unit. Resolves (JObj [(''snapshot_id'', JStr ''s_1'')])),
       snapshot = (\<lambda>snapshot_id n. Resolves (JObj [(''status'', JStr ''running'')])) \<rparr>
     ()
     \<lparr> session = None, reportProgress = None, ctx_apiToken = ''tok'',
       ctx_unlockerZone = ''mcp_unlocker'', ctx_browserZone = ''mcp_browser'' \<rparr>
     initial_world)) = 600"
proof -
  let ?up = "\<lparr> trigger = (\<lambda>d :: unit. Resolves (JObj [(''snapshot_id'', JStr ''s_1'')])),
       snapshot = (\<lambda>snapshot_id n. Resolves (JObj [(''status'', JStr ''running'')])) \<rparr>"
  let ?ctx = "\<lparr> session = None, reportProgress = None, ctx_apiToken = ''tok'',
       ctx_unlockerZone = ''mcp_unlocker'', ctx_browserZone = ''mcp_browser'' \<rparr>"
  have h: "trigger ?up () = Resolves (JObj [(''snapshot_id'', JStr ''s_1'')])
        \<and> get_prop ''snapshot_id'' (JObj [(''snapshot_id'', JStr ''s_1'')]) = Some (JStr ''s_1'')
        \<and> truthy (JStr ''s_1'')
        \<and> (\<forall>i<600. running_or_error (snapshot ?up (JStr ''s_1'') (queries initial_world + i)))"
    by (simp add: running_or_error_def)
  have ok: "\<forall>report p. reportProgress ?ctx = Some report \<longrightarrow> report p"
    by simp
  note t = snapshot_polling_bounded [THEN conjunct2, THEN conjunct2, THEN conjunct2, rule_format,
      OF h, of "\<lambda>j. ''[]''" ?ctx]
  from t have "fst (web_data_execute (\<lambda>j. ''[]'') ?up () ?ctx initial_world)
      = Inl (Error ''Timeout after 600 seconds waiting for data'')"
    by blast
  moreover from t ok have "queries (snd (web_data_execute (\<lambda>j. ''[]'') ?up () ?ctx initial_world))
      = queries initial_world + 600"
    by blast
  ultimately show ?thesis by (simp add: initial_world_def)
qed

section \<open>Lemmas on authentication\<close>












section \<open>Lemmas on the wrapper\<close>

lemma tool_fn_limited:
  assumes "check_rate_limit (rate_limit_config srv) now st = (Inl e, st1)"
  shows "tool_fn srv env name fn d ctx now st w = (Inl e, st1, w)"
  using assms by (simp add: tool_fn_def)

lemma tool_fn_no_token:
  assumes "check_rate_limit (rate_limit_config srv) now st = (Inr ok, st1)"
    and "\<not> truthy_str (session_field ctx apiToken)"
  shows "tool_fn srv env name fn d ctx now st w =
     (Inl (Error ''No API token available in session''), counted name st1, w)"
  using assms by (simp add: tool_fn_def counted_def Let_def)

lemma tool_fn_runs:
  assumes "check_rate_limit (rate_limit_config srv) now st = (Inr ok, st1)"
    and "truthy_str (session_field ctx apiToken)"
  shows "tool_fn srv env name fn d ctx now st w =
     (case fn d (extend_context srv env ctx (the (session_field ctx apiToken))) w of
        (Inr r, w') \<Rightarrow> (Inr r, counted name st1, w')
      | (Inl e, w') \<Rightarrow> (Inl (rethrow e), counted name st1, w'))"
  using assms by (simp add: tool_fn_def counted_def Let_def split: prod.splits sum.splits)

















text \<open>
  C10 (amended). An invocation whose context has no session token never runs the
  tool's handler and leaves the upstream untouched: when it passes the rate-limit check
  the wrapper throws "No API token available in session", and when the rate limit is
  exceeded it throws the rate limiter's error. An invocation with a session token calls
  the handler with that very token, and with the zones of the session or, for a zone
  the session lacks, the environment's default or else \<open>mcp_unlocker\<close>, \<open>mcp_browser\<close>.
\<close>

theorem tool_fn_requires_session_token:
  "(\<forall>(srv :: server) (env :: process_env) name
       (fn :: 'd \<Rightarrow> extended_context \<Rightarrow> 'w \<Rightarrow> (exn + 'r) \<times> 'w) d (ctx :: tool_context) now
       (st :: debug_stats) w.
      \<not> truthy_str (session_field ctx apiToken)
      \<longrightarrow> snd (snd (tool_fn srv env name fn d ctx now st w)) = w
          \<and> (\<forall>fn'. tool_fn srv env name fn' d ctx now st w = tool_fn srv env name fn d ctx now st w)
          \<and> (\<forall>ok st1. check_rate_limit (rate_limit_config srv) now st = (Inr ok, st1)
                \<longrightarrow> fst (tool_fn srv env name fn d ctx now st w)
                      = Inl (Error ''No API token available in session''))
          \<and> (\<forall>e st1. check_rate_limit (rate_limit_config srv) now st = (Inl e, st1)
                \<longrightarrow> fst (tool_fn srv env name fn d ctx now st w) = Inl e))
   \<and> (\<forall>(srv :: server) (env :: process_env) name
       (fn :: 'd \<Rightarrow> extended_context \<Rightarrow> 'w \<Rightarrow> (exn + 'r) \<times> 'w) d (ctx :: tool_context) now
       (st :: debug_stats) w ok st1 tok.
        startup env = Inr srv
        \<and> check_rate_limit (rate_limit_config srv) now st = (Inr ok, st1)
        \<and> session_field ctx apiToken = Some tok \<and> tok \<noteq> []
        \<longrightarrow> fst (tool_fn srv env name fn d ctx now st w) =
              (case fst (fn d
                 \<lparr> session = session ctx, reportProgress = reportProgress ctx,
                   ctx_apiToken = tok,
                   ctx_unlockerZone =
                     (if truthy_str (session_field ctx unlockerZone)
                      then the (session_field ctx unlockerZone)
                      else if truthy_str (WEB_UNLOCKER_ZONE env) then the (WEB_UNLOCKER_ZONE env)
                      else ''mcp_unlocker''),
                   ctx_browserZone =
                     (if truthy_str (session_field ctx browserZone)
                      then the (session_field ctx browserZone)
                      else if truthy_str (BROWSER_ZONE env) then the (BROWSER_ZONE env)
                      else ''mcp_browser'') \<rparr> w) of
                 Inr r \<Rightarrow> Inr r
               | Inl e \<Rightarrow> Inl (rethrow e)))"
proof (intro conjI allI impI)
  fix srv :: server and env :: process_env and name
    and fn :: "'d \<Rightarrow> extended_context \<Rightarrow> 'w \<Rightarrow> (exn + 'r) \<times> 'w"
    and d and ctx :: tool_context and now and st :: debug_stats and w
  assume nt: "\<not> truthy_str (session_field ctx apiToken)"
  obtain res st1 where chk: "check_rate_limit (rate_limit_config srv) now st = (res, st1)"
    by (cases "check_rate_limit (rate_limit_config srv) now st") auto
  have indep: "tool_fn srv env name g d ctx now st w =
      (case res of Inl e \<Rightarrow> (Inl e, st1, w)
       | Inr ok \<Rightarrow> (Inl (Error ''No API token available in session''), counted name st1, w))"
    for g :: "'d \<Rightarrow> extended_context \<Rightarrow> 'w \<Rightarrow> (exn + 'r) \<times> 'w"
    using chk tool_fn_limited [of srv now st _ st1 env name g d ctx w]
      tool_fn_no_token [of srv now st _ st1 ctx env name g d w] nt
    by (cases res) auto
  show "snd (snd (tool_fn srv env name fn d ctx now st w)) = w"
    by (simp add: indep split: sum.splits)
  show "tool_fn srv env name fn' d ctx now st w = tool_fn srv env name fn d ctx now st w" for fn'
    by (simp add: indep)
  show "fst (tool_fn srv env name fn d ctx now st w) = Inl (Error ''No API token available in session'')"
    if "check_rate_limit (rate_limit_config srv) now st = (Inr ok, st1')" for ok st1'
    using that chk by (simp add: indep)
  show "fst (tool_fn srv env name fn d ctx now st w) = Inl e"
    if "check_rate_limit (rate_limit_config srv) now st = (Inl e, st1')" for e st1'
    using that chk by (simp add: indep)
next
  fix srv :: server and env :: process_env and name
    and fn :: "'d \<Rightarrow> extended_context \<Rightarrow> 'w \<Rightarrow> (exn + 'r) \<times> 'w"
    and d and ctx :: tool_context and now and st :: debug_stats and w ok and st1 :: debug_stats
    and tok
  assume h: "startup env = Inr srv
        \<and> check_rate_limit (rate_limit_config srv) now st = (Inr ok, st1)
        \<and> session_field ctx apiToken = Some tok \<and> tok \<noteq> []"
  then have uz: "unlocker_zone srv = js_or_lit (WEB_UNLOCKER_ZONE env) ''mcp_unlocker''"
    by (auto simp: startup_def Let_def split: sum.splits)
  have ext: "extend_context srv env ctx tok =
      \<lparr> session = session ctx, reportProgress = reportProgress ctx,
                   ctx_apiToken = tok,
                   ctx_unlockerZone =
                     (if truthy_str (session_field ctx unlockerZone)
                      then the (session_field ctx unlockerZone)
                      else if truthy_str (WEB_UNLOCKER_ZONE env) then the (WEB_UNLOCKER_ZONE env)
                      else ''mcp_unlocker''),
                   ctx_browserZone =
                     (if truthy_str (session_field ctx browserZone)
                      then the (session_field ctx browserZone)
                      else if truthy_str (BROWSER_ZONE env) then the (BROWSER_ZONE env)
                      else ''mcp_browser'') \<rparr>"
    by (simp add: extend_context_def uz js_or_lit_def js_or_def)
  have "tool_fn srv env name fn d ctx now st w =
     (case fn d (extend_context srv env ctx (the (session_field ctx apiToken))) w of
        (Inr r, w') \<Rightarrow> (Inr r, counted name st1, w')
      | (Inl e, w') \<Rightarrow> (Inl (rethrow e), counted name st1, w'))"
    using h by (intro tool_fn_runs) (auto simp: truthy_str_def)
  then show "fst (tool_fn srv env name fn d ctx now st w) =
              (case fst (fn d
                 \<lparr> session = session ctx, reportProgress = reportProgress ctx,
                   ctx_apiToken = tok,
                   ctx_unlockerZone =
                     (if truthy_str (session_field ctx unlockerZone)
                      then the (session_field ctx unlockerZone)
                      else if truthy_str (WEB_UNLOCKER_ZONE env) then the (WEB_UNLOCKER_ZONE env)
                      else ''mcp_unlocker''),
                   ctx_browserZone =
                     (if truthy_str (session_field ctx browserZone)
                      then the (session_field ctx browserZone)
                      else if truthy_str (BROWSER_ZONE env) then the (BROWSER_ZONE env)
                      else ''mcp_browser'') \<rparr> w) of
                 Inr r \<Rightarrow> Inr r
               | Inl e \<Rightarrow> Inl (rethrow e))"
    using h by (simp add: ext [symmetric] split: prod.splits sum.splits)
qed


theorem tool_fn_requires_session_token_witness:
  "fst (tool_fn \<lparr> unlocker_zone = ''mcp_unlocker'', rate_limit_config = None, stats = initial_stats \<rparr>
          \<lparr> RATE_LIMIT = None, WEB_UNLOCKER_ZONE = None, BROWSER_ZONE = None \<rparr>
          ''scrape_as_html''
          (\<lambda>(d :: unit) c (w :: nat). (Inr ''<html>'' :: exn + string, w + 1))
          () \<lparr> session = None, reportProgress = None \<rparr> 0 initial_stats 0)
   = Inl (Error ''No API token available in session'')
   \<and> snd (snd (tool_fn \<lparr> unlocker_zone = ''mcp_unlocker'', rate_limit_config = None, stats = initial_stats \<rparr>
          \<lparr> RATE_LIMIT = None, WEB_UNLOCKER_ZONE = None, BROWSER_ZONE = None \<rparr>
          ''scrape_as_html''
          (\<lambda>(d :: unit) c (w :: nat). (Inr ''<html>'' :: exn + string, w + 1))
          () \<lparr> session = None, reportProgress = None \<rparr> 0 initial_stats 0)) = 0
   \<and> fst (tool_fn \<lparr> unlocker_zone = ''zone_a'', rate_limit_config = None, stats = initial_stats \<rparr>
          \<lparr> RATE_LIMIT = None, WEB_UNLOCKER_ZONE = Some ''zone_a'', BROWSER_ZONE = None \<rparr>
          ''scrape_as_html''
          (\<lambda>(d :: unit) c (w :: nat).
             (Inr (ctx_apiToken c @ ''|'' @ ctx_unlockerZone c @ ''|'' @ ctx_browserZone c)
                :: exn + string, w + 1))
          ()
          \<lparr> session = Some \<lparr> apiToken = Some ''tok'', unlockerZone = None, browserZone = None \<rparr>,
            reportProgress = None \<rparr>
          0 initial_stats 0)
   = Inr ''tok|zone_a|mcp_browser''"
proof -
  let ?srv = "\<lparr> unlocker_zone = ''mcp_unlocker'', rate_limit_config = None, stats = initial_stats \<rparr>"
  let ?env = "\<lparr> RATE_LIMIT = None, WEB_UNLOCKER_ZONE = None, BROWSER_ZONE = None \<rparr>"
  let ?fn = "\<lambda>(d :: unit) (c :: extended_context) (w :: nat). (Inr ''<html>'' :: exn + string, w + 1)"
  let ?ctx = "\<lparr> session = None, reportProgress = None \<rparr>"
  have nt: "\<not> truthy_str (session_field ?ctx apiToken)"
    by (simp add: session_field_def truthy_str_def)
  have chk: "check_rate_limit (rate_limit_config ?srv) 0 initial_stats = (Inr True, initial_stats)"
    by (simp add: check_rate_limit_def)
  note t = tool_fn_requires_session_token [THEN conjunct1, rule_format, OF nt,
      of ?srv ?env "''scrape_as_html''" ?fn "()" 0 initial_stats 0]
  have 1: "fst (tool_fn ?srv ?env ''scrape_as_html'' ?fn () ?ctx 0 initial_stats 0)
      = Inl (Error ''No API token available in session'')"
    using t chk by blast
  have 2: "snd (snd (tool_fn ?srv ?env ''scrape_as_html'' ?fn () ?ctx 0 initial_stats 0)) = 0"
    using t by blast
  let ?srv2 = "\<lparr> unlocker_zone = ''zone_a'', rate_limit_config = None, stats = initial_stats \<rparr>"
  let ?env2 = "\<lparr> RATE_LIMIT = None, WEB_UNLOCKER_ZONE = Some ''zone_a'', BROWSER_ZONE = None \<rparr>"
  let ?fn2 = "\<lambda>(d :: unit) (c :: extended_context) (w :: nat).
             (Inr (ctx_apiToken c @ ''|'' @ ctx_unlockerZone c @ ''|'' @ ctx_browserZone c)
                :: exn + string, w + 1)"
  let ?ctx2 = "\<lparr> session = Some \<lparr> apiToken = Some ''tok'', unlockerZone = None, browserZone = None \<rparr>,
            reportProgress = None \<rparr>"
  have h: "startup ?env2 = Inr ?srv2
        \<and> check_rate_limit (rate_limit_config ?srv2) 0 initial_stats = (Inr True, initial_stats)
        \<and> session_field ?ctx2 apiToken = Some ''tok'' \<and> ''tok'' \<noteq> []"
    by (simp add: startup_def parse_rate_limit_def check_rate_limit_def session_field_def
        js_or_lit_def truthy_str_def)
  have 3: "fst (tool_fn ?srv2 ?env2 ''scrape_as_html'' ?fn2 () ?ctx2 0 initial_stats 0)
      = Inr ''tok|zone_a|mcp_browser''"
    using tool_fn_requires_session_token [THEN conjunct2, rule_format, OF h,
        of "''scrape_as_html''" ?fn2 "()" 0]
    by (simp add: session_field_def truthy_str_def)
  from 1 2 3 show ?thesis by blast
qed

theorem tool_fn_no_token_rate_limited:
  "fst (snd (tool_fn
       \<lparr> unlocker_zone = ''mcp_unlocker'',
         rate_limit_config = Some \<lparr> limit = 1, window = 3600000, display = ''1/1h'' \<rparr>,
         stats = initial_stats \<rparr>
       \<lparr> RATE_LIMIT = Some ''1/1h'', WEB_UNLOCKER_ZONE = None, BROWSER_ZONE = None \<rparr>
       ''search'' (\<lambda>(d :: unit) c (w :: unit). (Inr ''[]'' :: exn + string, w)) ()
       \<lparr> session = None, reportProgress = None \<rparr> 1000 initial_stats ()))
   = \<lparr> tool_calls = [''search'' \<mapsto> 1], session_calls = 1, call_timestamps = [1000] \<rparr>
   \<and> fst (tool_fn
       \<lparr> unlocker_zone = ''mcp_unlocker'',
         rate_limit_config = Some \<lparr> limit = 1, window = 3600000, display = ''1/1h'' \<rparr>,
         stats = initial_stats \<rparr>
       \<lparr> RATE_LIMIT = Some ''1/1h'', WEB_UNLOCKER_ZONE = None, BROWSER_ZONE = None \<rparr>
       ''search'' (\<lambda>(d :: unit) c (w :: unit). (Inr ''[]'' :: exn + string, w)) ()
       \<lparr> session = None, reportProgress = None \<rparr> 2000
       \<lparr> tool_calls = [''search'' \<mapsto> 1], session_calls = 1, call_timestamps = [1000] \<rparr> ())
   = Inl (Error ''Rate limit exceeded: 1/1h'')"
  by (simp add: tool_fn_def check_rate_limit_def session_field_def truthy_str_def Let_def
      initial_stats_def)

section \<open>Lemmas on search URLs\<close>











end
